theory Spec2Isabelle
  imports Complex_Main
begin

section \<open>Data model\<close>

text \<open>
  The entity shapes are those of the GraphQL schema (\<^verbatim>\<open>src/backend/schema.ts\<close>) and of the
  JSON document the resolvers read and write. A GraphQL \<^verbatim>\<open>ID\<close> and a \<^verbatim>\<open>String\<close> are
  strings; a \<^verbatim>\<open>Float\<close> is kept as a rational, no resolver computes with it. Field names
  carry the entity as a prefix, since HOL record fields are global names.

  A string is the list of its characters: \<open>length\<close> is the \<^verbatim>\<open>.length\<close> of the source and
  \<open>=\<close> its \<^verbatim>\<open>===\<close> on text whose characters are single code units. The arguments of a
  resolver have the types of the schema's inputs, which are all non-null, so a blank
  field is the empty string.
\<close>

type_synonym ID = string

record Salon =
  salon_id :: ID
  salon_name :: string
  salon_address :: string
  salon_rating :: rat
  salon_specialties :: "string list"

record Service =
  service_id :: ID
  service_name :: string
  service_price :: rat
  service_salonId :: ID

record Staff =
  staff_id :: ID
  staff_name :: string
  staff_specialization :: string
  staff_photo :: string
  staff_salonId :: ID

record Schedule =
  schedule_id :: ID
  schedule_time :: string
  schedule_isAvailable :: bool

text \<open>An element of the \<^verbatim>\<open>users\<close> collection: the password is stored in clear.\<close>

record StoredUser =
  stored_id :: ID
  stored_name :: string
  stored_phone :: string
  stored_email :: string
  stored_password :: string

text \<open>The schema's \<^verbatim>\<open>User\<close> type, the \<^verbatim>\<open>userWithoutPassword\<close> object of the resolvers.\<close>

record User =
  user_id :: ID
  user_name :: string
  user_phone :: string
  user_email :: string

record Booking =
  booking_id :: ID
  booking_userId :: ID
  booking_salon :: Salon
  booking_services :: "Service list"
  booking_staff :: Staff
  booking_time :: string

record AuthResponse =
  success :: bool
  message :: string
  user :: "User option"

text \<open>
  The document of \<^verbatim>\<open>data/sampleData.json\<close>. The resolvers test \<^verbatim>\<open>data.bookings\<close> for
  absence (\<^verbatim>\<open>data.bookings || []\<close>, \<^verbatim>\<open>if (!data.bookings)\<close>), so that key is optional; the
  other collections are used without a test.
\<close>

record Document =
  salons :: "Salon list"
  services :: "Service list"
  staff :: "Staff list"
  schedules :: "Schedule list"
  users :: "StoredUser list"
  bookings :: "Booking list option"

text \<open>
  The state of the server process: \<open>sampleData\<close> is the module-level
  \<^verbatim>\<open>import sampleData from '../data/sampleData.json'\<close>, loaded once; \<open>dataFile\<close> is the document
  held by the file, which \<^verbatim>\<open>readData\<close> parses afresh on every call and \<^verbatim>\<open>writeData\<close>
  overwrites. The file is represented by the document it holds.
\<close>

record Server =
  sampleData :: Document
  dataFile :: Document

datatype error = InvalidBookingData

section \<open>Resolvers (\<^verbatim>\<open>src/unnamed/part_004\<close>)\<close>

text \<open>
  Every resolver logs its call and awaits \<^verbatim>\<open>delay(...)\<close> before anything else; neither
  touches its result or the file, and both are left out. A resolver takes the fields of
  its \<^verbatim>\<open>input\<close> object as arguments, in the order in which it destructures them.
\<close>

definition readData :: "Server \<Rightarrow> Document" where
  "readData st = dataFile st"

definition writeData :: "Document \<Rightarrow> Server \<Rightarrow> Server" where
  "writeData data st = st\<lparr>dataFile := data\<rparr>"

subsection \<open>Queries\<close>

definition getSalons :: "Server \<Rightarrow> Salon list" where
  "getSalons st = salons (sampleData st)"

definition getServices :: "ID \<Rightarrow> Server \<Rightarrow> Service list" where
  "getServices salonId st =
     filter (\<lambda>service. service_salonId service = salonId) (services (sampleData st))"

definition getStaff :: "ID \<Rightarrow> Server \<Rightarrow> Staff list" where
  "getStaff salonId st =
     filter (\<lambda>s. staff_salonId s = salonId) (staff (sampleData st))"

definition getStaffSchedules :: "ID \<Rightarrow> Server \<Rightarrow> Schedule list" where
  "getStaffSchedules staffId st = schedules (sampleData st)"

definition getBookings :: "ID \<Rightarrow> Server \<Rightarrow> Booking list" where
  "getBookings userId st =
     (let data = readData st
      in filter (\<lambda>b. booking_userId b = userId)
           (case bookings data of None \<Rightarrow> [] | Some bs \<Rightarrow> bs))"

subsection \<open>Identifiers from the clock\<close>

text \<open>
  \<^verbatim>\<open>Date.now()\<close> is an input of a mutation: the clock reading in milliseconds, a natural
  number. A template literal renders it in decimal; \<open>digit\<close> is only applied to a number
  below ten.
\<close>

definition digit :: "nat \<Rightarrow> char" where
  "digit d = ''0123456789'' ! d"

function numberToString :: "nat \<Rightarrow> string" where
  "numberToString n =
     (if n < 10 then [digit n] else numberToString (n div 10) @ [digit (n mod 10)])"
  by pat_completeness auto
termination
  by (relation "measure (\<lambda>n. n)") auto

declare numberToString.simps [simp del]

subsection \<open>Mutations\<close>

text \<open>
  A mutation returns its result and the state it leaves. \<^verbatim>\<open>createBooking\<close> throws
  \<^verbatim>\<open>Error('Invalid booking data')\<close>, the value \<open>Inl InvalidBookingData\<close>, before any
  write, so the state it leaves then is the one it found. Past that test \<^verbatim>\<open>salon\<close> and
  \<^verbatim>\<open>staff\<close> are the objects that \<^verbatim>\<open>find\<close> returned.
\<close>

definition createBooking ::
  "nat \<Rightarrow> ID \<Rightarrow> ID \<Rightarrow> ID list \<Rightarrow> ID \<Rightarrow> string \<Rightarrow> Server \<Rightarrow> (error + Booking) \<times> Server"
where
  "createBooking now userId salonId serviceIds staffId time st =
     (let data = readData st;
          salon = find (\<lambda>s. salon_id s = salonId) (salons data);
          services' = filter (\<lambda>s. service_id s \<in> set serviceIds) (services data);
          staff' = find (\<lambda>s. staff_id s = staffId) (staff data)
      in if salon = None \<or> staff' = None \<or> length services' = 0
         then (Inl InvalidBookingData, st)
         else
           let booking = \<lparr>booking_id = ''booking-'' @ numberToString now,
                          booking_userId = userId,
                          booking_salon = the salon,
                          booking_services = services',
                          booking_staff = the staff',
                          booking_time = time\<rparr>;
               data' = data\<lparr>bookings :=
                         Some ((case bookings data of None \<Rightarrow> [] | Some bs \<Rightarrow> bs) @ [booking])\<rparr>
           in (Inr booking, writeData data' st))"

text \<open>
  The soft failure of \<^verbatim>\<open>register\<close> and \<^verbatim>\<open>login\<close>, which they write out at every return:
  \<^verbatim>\<open>{ success: false, message: msg, user: null }\<close>.
\<close>

abbreviation failure :: "string \<Rightarrow> AuthResponse" where
  "failure msg \<equiv> \<lparr>success = False, message = msg, user = None\<rparr>"

definition register ::
  "nat \<Rightarrow> string \<Rightarrow> string \<Rightarrow> string \<Rightarrow> string \<Rightarrow> Server \<Rightarrow> AuthResponse \<times> Server"
where
  "register now name phone email password st =
     (let data = readData st;
          existingUser = find (\<lambda>u. stored_email u = email) (users data)
      in if existingUser \<noteq> None
         then (failure ''Email already registered. Please login instead.'', st)
         else if name = [] \<or> phone = [] \<or> email = [] \<or> password = []
         then (failure ''All fields are required'', st)
         else if length phone < 10
         then (failure ''Phone number must be at least 10 digits'', st)
         else if CHR ''@'' \<notin> set email
         then (failure ''Invalid email address'', st)
         else if length password < 6
         then (failure ''Password must be at least 6 characters'', st)
         else
           let newUser = \<lparr>stored_id = ''user-'' @ numberToString now,
                          stored_name = name,
                          stored_phone = phone,
                          stored_email = email,
                          stored_password = password\<rparr>;
               data' = data\<lparr>users := users data @ [newUser]\<rparr>;
               userWithoutPassword = \<lparr>user_id = stored_id newUser,
                                      user_name = stored_name newUser,
                                      user_phone = stored_phone newUser,
                                      user_email = stored_email newUser\<rparr>
           in (\<lparr>success = True,
                message = ''Registration successful! Please login to continue.'',
                user = Some userWithoutPassword\<rparr>,
               writeData data' st))"

definition login :: "string \<Rightarrow> string \<Rightarrow> Server \<Rightarrow> AuthResponse \<times> Server" where
  "login email password st =
     (let data = readData st
      in case find (\<lambda>u. stored_email u = email \<and> stored_password u = password) (users data) of
           None \<Rightarrow> (failure ''Invalid email or password'', st)
         | Some u \<Rightarrow>
             (\<lparr>success = True,
               message = ''Login successful!'',
               user = Some \<lparr>user_id = stored_id u,
                            user_name = stored_name u,
                            user_phone = stored_phone u,
                            user_email = stored_email u\<rparr>\<rparr>,
              st))"

section \<open>Booking flow controller (\<^verbatim>\<open>src/app/booking.tsx\<close>)\<close>

text \<open>
  \<^verbatim>\<open>toggleService\<close> reads the state variable \<^verbatim>\<open>selectedServices\<close> and sets it; here it
  takes the selection and returns the new one.
\<close>

definition toggleService :: "Service \<Rightarrow> Service list \<Rightarrow> Service list" where
  "toggleService service selectedServices =
     (if find (\<lambda>s. service_id s = service_id service) selectedServices \<noteq> None
      then filter (\<lambda>s. service_id s \<noteq> service_id service) selectedServices
      else selectedServices @ [service])"

section \<open>Sequences of calls\<close>

text \<open>
  The server handles one mutation after the other: past the initial \<^verbatim>\<open>await delay(...)\<close> a
  resolver runs from \<^verbatim>\<open>readData\<close> to \<^verbatim>\<open>writeData\<close> without yielding. The Query resolvers
  write nothing, so a history of the file is a list of mutations, each with the clock
  reading it gets.
\<close>

datatype Request =
    CreateBooking nat ID ID "ID list" ID string
  | Register nat string string string string
  | Login string string

fun serve :: "Request \<Rightarrow> Server \<Rightarrow> Server" where
  "serve (CreateBooking now userId salonId serviceIds staffId time) st =
     snd (createBooking now userId salonId serviceIds staffId time st)"
| "serve (Register now name phone email password) st =
     snd (register now name phone email password st)"
| "serve (Login email password) st = snd (login email password st)"

fun run :: "Request list \<Rightarrow> Server \<Rightarrow> Server" where
  "run [] st = st"
| "run (r # rs) st = run rs (serve r st)"

text \<open>The same booking requested once per clock reading of the list, in a row.\<close>

fun createBookings ::
  "nat list \<Rightarrow> ID \<Rightarrow> ID \<Rightarrow> ID list \<Rightarrow> ID \<Rightarrow> string \<Rightarrow> Server \<Rightarrow> (error + Booking) list \<times> Server"
where
  "createBookings [] userId salonId serviceIds staffId time st = ([], st)"
| "createBookings (now # nows) userId salonId serviceIds staffId time st =
     (let (r, st') = createBooking now userId salonId serviceIds staffId time st;
          (rs, st'') = createBookings nows userId salonId serviceIds staffId time st'
      in (r # rs, st''))"

text \<open>The bookings a document holds, with the absent key read as the resolvers read it.\<close>

definition storedBookings :: "Server \<Rightarrow> Booking list" where
  "storedBookings st = (case bookings (readData st) of None \<Rightarrow> [] | Some bs \<Rightarrow> bs)"

section \<open>A small document to run the resolvers on\<close>

definition exampleSalon :: Salon where
  "exampleSalon = \<lparr>salon_id = ''salon-1'', salon_name = ''Glamour Studio'',
     salon_address = ''12 Main St'', salon_rating = 9 / 2, salon_specialties = [''Hair'']\<rparr>"

definition exampleService :: Service where
  "exampleService = \<lparr>service_id = ''service-1'', service_name = ''Haircut'',
     service_price = 25, service_salonId = ''salon-1''\<rparr>"

definition exampleStaff :: Staff where
  "exampleStaff = \<lparr>staff_id = ''staff-1'', staff_name = ''Ann'',
     staff_specialization = ''Stylist'', staff_photo = ''ann.png'', staff_salonId = ''salon-1''\<rparr>"

definition exampleUser :: StoredUser where
  "exampleUser = \<lparr>stored_id = ''user-1'', stored_name = ''Demo User'',
     stored_phone = ''1234567890'', stored_email = ''demo@salon.com'',
     stored_password = ''demo123''\<rparr>"

definition exampleData :: Document where
  "exampleData = \<lparr>salons = [exampleSalon],
     services = [exampleService],
     staff = [exampleStaff],
     schedules = [\<lparr>schedule_id = ''schedule-1'', schedule_time = ''10:00 AM'',
                    schedule_isAvailable = True\<rparr>,
                  \<lparr>schedule_id = ''schedule-2'', schedule_time = ''11:00 AM'',
                    schedule_isAvailable = False\<rparr>],
     users = [exampleUser],
     bookings = Some []\<rparr>"

definition exampleServer :: Server where
  "exampleServer = \<lparr>sampleData = exampleData, dataFile = exampleData\<rparr>"

definition exampleBooking :: "nat \<Rightarrow> ID \<Rightarrow> Booking" where
  "exampleBooking now userId = \<lparr>booking_id = ''booking-'' @ numberToString now,
     booking_userId = userId,
     booking_salon = exampleSalon, booking_services = [exampleService],
     booking_staff = exampleStaff, booking_time = ''10:00 AM''\<rparr>"

lemmas example_defs = exampleServer_def exampleData_def exampleSalon_def exampleService_def
  exampleStaff_def exampleUser_def

section \<open>Decimal rendering\<close>

text \<open>Two clock readings that render alike are the same reading.\<close>

lemma digit_inj: "a < 10 \<Longrightarrow> b < 10 \<Longrightarrow> digit a = digit b \<Longrightarrow> a = b"
proof -
  assume a: "a < 10" and b: "b < 10" and e: "digit a = digit b"
  have d: "distinct ''0123456789''" by simp
  have l: "length ''0123456789'' = 10" by simp
  from e have "''0123456789'' ! a = ''0123456789'' ! b" by (simp add: digit_def)
  with d a b l show "a = b" by (metis nth_eq_iff_index_eq)
qed

lemma numberToString_nonempty: "numberToString n \<noteq> []"
  by (subst numberToString.simps) simp

lemma numberToString_inj: "numberToString n = numberToString m \<Longrightarrow> n = m"
proof (induction n arbitrary: m rule: numberToString.induct)
  case (1 n)
  show ?case
  proof (cases "n < 10")
    case True
    then have n: "numberToString n = [digit n]" by (subst numberToString.simps) simp
    show ?thesis
    proof (cases "m < 10")
      case mt: True
      then have "numberToString m = [digit m]" by (subst numberToString.simps) simp
      with n "1.prems" have "digit n = digit m" by simp
      with True mt show ?thesis by (rule digit_inj)
    next
      case False
      then have "numberToString m = numberToString (m div 10) @ [digit (m mod 10)]"
        by (subst numberToString.simps) simp
      with n "1.prems" have "numberToString (m div 10) = []" by simp
      then show ?thesis by (simp add: numberToString_nonempty)
    qed
  next
    case False
    then have n: "numberToString n = numberToString (n div 10) @ [digit (n mod 10)]"
      by (subst numberToString.simps) simp
    show ?thesis
    proof (cases "m < 10")
      case True
      then have "numberToString m = [digit m]" by (subst numberToString.simps) simp
      with n "1.prems" have "numberToString (n div 10) = []" by simp
      then show ?thesis by (simp add: numberToString_nonempty)
    next
      case mf: False
      then have "numberToString m = numberToString (m div 10) @ [digit (m mod 10)]"
        by (subst numberToString.simps) simp
      with n "1.prems" have q: "numberToString (n div 10) = numberToString (m div 10)"
        and r: "digit (n mod 10) = digit (m mod 10)" by simp_all
      from "1.IH" [OF False q] have "n div 10 = m div 10" .
      moreover have "n mod 10 = m mod 10" by (rule digit_inj [OF _ _ r]) simp_all
      ultimately show ?thesis by (metis div_mult_mod_eq)
    qed
  qed
qed

section \<open>Booking creation\<close>

text \<open>
  The two outcomes of \<^verbatim>\<open>createBooking\<close>: the error with the state untouched, or the
  booking with the state in which it is appended to the bookings of the file.
\<close>

lemma createBooking_Inl:
  assumes "find (\<lambda>s. salon_id s = salonId) (salons (dataFile st)) = None
     \<or> find (\<lambda>s. staff_id s = staffId) (staff (dataFile st)) = None
     \<or> filter (\<lambda>s. service_id s \<in> set serviceIds) (services (dataFile st)) = []"
  shows "createBooking now userId salonId serviceIds staffId time st = (Inl InvalidBookingData, st)"
  using assms by (auto simp: createBooking_def readData_def Let_def)

lemma createBooking_Inr:
  assumes "find (\<lambda>s. salon_id s = salonId) (salons (dataFile st)) = Some sa"
    and "find (\<lambda>s. staff_id s = staffId) (staff (dataFile st)) = Some sf"
    and "filter (\<lambda>s. service_id s \<in> set serviceIds) (services (dataFile st)) \<noteq> []"
  shows "createBooking now userId salonId serviceIds staffId time st =
     (Inr \<lparr>booking_id = ''booking-'' @ numberToString now, booking_userId = userId,
           booking_salon = sa,
           booking_services = filter (\<lambda>s. service_id s \<in> set serviceIds) (services (dataFile st)),
           booking_staff = sf, booking_time = time\<rparr>,
      st\<lparr>dataFile := (dataFile st)\<lparr>bookings := Some (storedBookings st @
          [\<lparr>booking_id = ''booking-'' @ numberToString now, booking_userId = userId,
           booking_salon = sa,
           booking_services = filter (\<lambda>s. service_id s \<in> set serviceIds) (services (dataFile st)),
           booking_staff = sf, booking_time = time\<rparr>])\<rparr>\<rparr>)"
  using assms by (simp add: createBooking_def readData_def writeData_def storedBookings_def Let_def)

lemma createBooking_cases:
  obtains (fail) "find (\<lambda>s. salon_id s = salonId) (salons (dataFile st)) = None
     \<or> find (\<lambda>s. staff_id s = staffId) (staff (dataFile st)) = None
     \<or> filter (\<lambda>s. service_id s \<in> set serviceIds) (services (dataFile st)) = []"
     "createBooking now userId salonId serviceIds staffId time st = (Inl InvalidBookingData, st)"
  | (ok) sa sf where "find (\<lambda>s. salon_id s = salonId) (salons (dataFile st)) = Some sa"
     "find (\<lambda>s. staff_id s = staffId) (staff (dataFile st)) = Some sf"
     "filter (\<lambda>s. service_id s \<in> set serviceIds) (services (dataFile st)) \<noteq> []"
     "createBooking now userId salonId serviceIds staffId time st =
     (Inr \<lparr>booking_id = ''booking-'' @ numberToString now, booking_userId = userId,
           booking_salon = sa,
           booking_services = filter (\<lambda>s. service_id s \<in> set serviceIds) (services (dataFile st)),
           booking_staff = sf, booking_time = time\<rparr>,
      st\<lparr>dataFile := (dataFile st)\<lparr>bookings := Some (storedBookings st @
          [\<lparr>booking_id = ''booking-'' @ numberToString now, booking_userId = userId,
           booking_salon = sa,
           booking_services = filter (\<lambda>s. service_id s \<in> set serviceIds) (services (dataFile st)),
           booking_staff = sf, booking_time = time\<rparr>])\<rparr>\<rparr>)"
proof (cases "find (\<lambda>s. salon_id s = salonId) (salons (dataFile st)) = None
     \<or> find (\<lambda>s. staff_id s = staffId) (staff (dataFile st)) = None
     \<or> filter (\<lambda>s. service_id s \<in> set serviceIds) (services (dataFile st)) = []")
  case True
  then show ?thesis using fail createBooking_Inl by blast
next
  case False
  then obtain sa sf where "find (\<lambda>s. salon_id s = salonId) (salons (dataFile st)) = Some sa"
     "find (\<lambda>s. staff_id s = staffId) (staff (dataFile st)) = Some sf"
     "filter (\<lambda>s. service_id s \<in> set serviceIds) (services (dataFile st)) \<noteq> []" by auto
  then show ?thesis using ok createBooking_Inr by blast
qed

lemma createBooking_isl:
  "isl (fst (createBooking now userId salonId serviceIds staffId time st)) \<longleftrightarrow>
     find (\<lambda>s. salon_id s = salonId) (salons (dataFile st)) = None
     \<or> find (\<lambda>s. staff_id s = staffId) (staff (dataFile st)) = None
     \<or> filter (\<lambda>s. service_id s \<in> set serviceIds) (services (dataFile st)) = []"
  by (cases rule: createBooking_cases [of salonId st staffId serviceIds now userId time]) auto

lemma createBooking_keeps:
  "salons (dataFile (snd (createBooking now userId salonId serviceIds staffId time st))) = salons (dataFile st)"
  "services (dataFile (snd (createBooking now userId salonId serviceIds staffId time st))) = services (dataFile st)"
  "staff (dataFile (snd (createBooking now userId salonId serviceIds staffId time st))) = staff (dataFile st)"
  "schedules (dataFile (snd (createBooking now userId salonId serviceIds staffId time st))) = schedules (dataFile st)"
  "users (dataFile (snd (createBooking now userId salonId serviceIds staffId time st))) = users (dataFile st)"
  "sampleData (snd (createBooking now userId salonId serviceIds staffId time st)) = sampleData st"
  by (cases rule: createBooking_cases [of salonId st staffId serviceIds now userId time]; simp)+

lemma createBookings_all_succeed:
  assumes "find (\<lambda>s. salon_id s = salonId) (salons (dataFile st)) \<noteq> None"
    and "find (\<lambda>s. staff_id s = staffId) (staff (dataFile st)) \<noteq> None"
    and "filter (\<lambda>s. service_id s \<in> set serviceIds) (services (dataFile st)) \<noteq> []"
  shows "map (map_sum (\<lambda>e. e) booking_time) (fst (createBookings nows userId salonId serviceIds staffId time st))
           = replicate (length nows) (Inr time)
       \<and> length (filter (\<lambda>b. booking_time b = time)
            (storedBookings (snd (createBookings nows userId salonId serviceIds staffId time st))))
           = length (filter (\<lambda>b. booking_time b = time) (storedBookings st)) + length nows"
  using assms
proof (induction nows arbitrary: st)
  case Nil
  show ?case by simp
next
  case (Cons now nows)
  let ?st' = "snd (createBooking now userId salonId serviceIds staffId time st)"
  from Cons.prems obtain sa sf where
    sa: "find (\<lambda>s. salon_id s = salonId) (salons (dataFile st)) = Some sa" and
    sf: "find (\<lambda>s. staff_id s = staffId) (staff (dataFile st)) = Some sf" by auto
  note ok = createBooking_Inr [OF sa sf Cons.prems(3), of now userId time]
  have t: "map_sum (\<lambda>e. e) booking_time (fst (createBooking now userId salonId serviceIds staffId time st)) = Inr time"
    by (simp add: ok)
  have n: "length (filter (\<lambda>b. booking_time b = time) (storedBookings ?st'))
           = Suc (length (filter (\<lambda>b. booking_time b = time) (storedBookings st)))"
    by (simp add: ok storedBookings_def readData_def)
  have ih: "map (map_sum (\<lambda>e. e) booking_time) (fst (createBookings nows userId salonId serviceIds staffId time ?st'))
           = replicate (length nows) (Inr time)
       \<and> length (filter (\<lambda>b. booking_time b = time)
            (storedBookings (snd (createBookings nows userId salonId serviceIds staffId time ?st'))))
           = length (filter (\<lambda>b. booking_time b = time) (storedBookings ?st')) + length nows"
    using Cons.prems by (intro Cons.IH) (simp_all add: createBooking_keeps)
  show ?case using t n ih by (simp add: split_beta)
qed

lemma createBooking_Inr_iff:
  "(\<exists>b st'. createBooking now userId salonId serviceIds staffId time st = (Inr b, st')) \<longleftrightarrow>
     (\<exists>s \<in> set (salons (readData st)). salon_id s = salonId)
   \<and> (\<exists>s \<in> set (staff (readData st)). staff_id s = staffId)
   \<and> (\<exists>s \<in> set (services (readData st)). service_id s \<in> set serviceIds)"
proof -
  have "(\<exists>b st'. createBooking now userId salonId serviceIds staffId time st = (Inr b, st'))
      \<longleftrightarrow> \<not> isl (fst (createBooking now userId salonId serviceIds staffId time st))"
    by (cases rule: createBooking_cases [of salonId st staffId serviceIds now userId time]) simp_all
  then show ?thesis
    unfolding createBooking_isl
    by (auto simp: readData_def find_None_iff filter_empty_conv)
qed

text \<open>On the example document the booking of its salon, service and staff succeeds.\<close>

lemma createBooking_example:
  "createBooking now userId ''salon-1'' [''service-1''] ''staff-1'' ''10:00 AM''
       (exampleServer\<lparr>dataFile := exampleData\<lparr>bookings := bs\<rparr>\<rparr>)
     = (Inr (exampleBooking now userId),
        exampleServer\<lparr>dataFile := exampleData\<lparr>bookings :=
           Some ((case bs of None \<Rightarrow> [] | Some bs \<Rightarrow> bs) @ [exampleBooking now userId])\<rparr>\<rparr>)"
  by (simp add: createBooking_def readData_def writeData_def example_defs exampleBooking_def
      Let_def)

lemma exampleServer_file: "exampleServer\<lparr>dataFile := exampleData\<lparr>bookings := Some []\<rparr>\<rparr> = exampleServer"
  by (simp add: exampleServer_def exampleData_def)

text \<open>
  C1. For every call \<^verbatim>\<open>createBooking(userId, salonId, serviceIds, staffId, time)\<close>: if the
  document holds no salon with id \<open>salonId\<close>, or no staff with id \<open>staffId\<close>, or no
  service whose id is in \<open>serviceIds\<close>, the call fails with the error instead of a
  booking, and the state it leaves is the state it found: the persisted document is
  unchanged, no booking is appended.
\<close>

theorem createBooking_not_found:
  assumes "(\<forall>s \<in> set (salons (readData st)). salon_id s \<noteq> salonId)
         \<or> (\<forall>s \<in> set (staff (readData st)). staff_id s \<noteq> staffId)
         \<or> (\<forall>s \<in> set (services (readData st)). service_id s \<notin> set serviceIds)"
  shows "createBooking now userId salonId serviceIds staffId time st = (Inl InvalidBookingData, st)"
proof (rule createBooking_Inl)
  from assms show "find (\<lambda>s. salon_id s = salonId) (salons (dataFile st)) = None
     \<or> find (\<lambda>s. staff_id s = staffId) (staff (dataFile st)) = None
     \<or> filter (\<lambda>s. service_id s \<in> set serviceIds) (services (dataFile st)) = []"
    by (auto simp: readData_def find_None_iff filter_empty_conv)
qed

theorem createBooking_not_found_witness:
  "createBooking 5 ''user-1'' ''salon-9'' [''service-1''] ''staff-1'' ''10:00 AM'' exampleServer
     = (Inl InvalidBookingData, exampleServer)
   \<and> createBooking 5 ''user-1'' ''salon-1'' [''service-1''] ''staff-9'' ''10:00 AM'' exampleServer
     = (Inl InvalidBookingData, exampleServer)
   \<and> createBooking 5 ''user-1'' ''salon-1'' [''service-9''] ''staff-1'' ''10:00 AM'' exampleServer
     = (Inl InvalidBookingData, exampleServer)
   \<and> createBooking 5 ''user-1'' ''salon-1'' [] ''staff-1'' ''10:00 AM'' exampleServer
     = (Inl InvalidBookingData, exampleServer)
   \<and> storedBookings exampleServer = []"
proof -
  have a: "\<forall>s \<in> set (salons (readData exampleServer)). salon_id s \<noteq> ''salon-9''"
    by (simp add: readData_def example_defs)
  have b: "\<forall>s \<in> set (staff (readData exampleServer)). staff_id s \<noteq> ''staff-9''"
    by (simp add: readData_def example_defs)
  have c: "\<forall>s \<in> set (services (readData exampleServer)). service_id s \<notin> set [''service-9'']"
    by (simp add: readData_def example_defs)
  have d: "\<forall>s \<in> set (services (readData exampleServer)). service_id s \<notin> set []"
    by simp
  have e: "storedBookings exampleServer = []"
    by (simp add: storedBookings_def readData_def example_defs)
  show ?thesis
    using createBooking_not_found [of exampleServer "''salon-9''" "''staff-1''" "[''service-1'']", OF disjI1, OF a]
      createBooking_not_found [of exampleServer "''salon-1''" "''staff-9''" "[''service-1'']", OF disjI2, OF disjI1, OF b]
      createBooking_not_found [of exampleServer "''salon-1''" "''staff-1''" "[''service-9'']", OF disjI2, OF disjI2, OF c]
      createBooking_not_found [of exampleServer "''salon-1''" "''staff-1''" "[]", OF disjI2, OF disjI2, OF d]
      e
    by simp
qed

text \<open>
  C3, as stated: after every successful \<^verbatim>\<open>createBooking\<close>, \<^verbatim>\<open>getBookings(userId)\<close> includes
  the booking, and its id is distinct from the id of every booking that was in the store
  before the call. The id is \<^verbatim>\<open>booking-\<close> followed by the clock reading, so a second
  booking made at the same reading gets the id of the first.
\<close>

theorem createBooking_same_clock_counterexample:
  "fst (createBooking 5 ''user-1'' ''salon-1'' [''service-1''] ''staff-1'' ''10:00 AM''
         (run [CreateBooking 5 ''user-1'' ''salon-1'' [''service-1''] ''staff-1'' ''10:00 AM'']
            exampleServer))
     = Inr (exampleBooking 5 ''user-1'')
   \<and> booking_id (exampleBooking 5 ''user-1'') \<in> booking_id ` set (storedBookings
         (run [CreateBooking 5 ''user-1'' ''salon-1'' [''service-1''] ''staff-1'' ''10:00 AM'']
            exampleServer))"
proof -
  have 1: "run [CreateBooking 5 ''user-1'' ''salon-1'' [''service-1''] ''staff-1'' ''10:00 AM'']
            exampleServer
      = exampleServer\<lparr>dataFile := exampleData\<lparr>bookings := Some [exampleBooking 5 ''user-1'']\<rparr>\<rparr>"
    using createBooking_example [of 5 "''user-1''" "Some []"] by (simp add: exampleServer_file)
  show ?thesis
    unfolding 1 by (simp add: createBooking_example storedBookings_def readData_def)
qed

text \<open>
  C3, amended: after every successful \<^verbatim>\<open>createBooking\<close>, \<^verbatim>\<open>getBookings(userId)\<close> on the
  resulting store is what it was before followed by the created booking, whose userId and
  time are the arguments, whose salon and staff are the first salon and staff with the
  given ids, and whose services are the stored services with an id in \<open>serviceIds\<close>. Its id
  is \<^verbatim>\<open>booking-\<close> followed by the clock reading in decimal, which is distinct from the id
  of every prior booking made at another clock reading.
\<close>

theorem createBooking_round_trip:
  assumes "createBooking now userId salonId serviceIds staffId time st = (Inr b, st')"
  shows "getBookings userId st' = getBookings userId st @ [b]
       \<and> booking_userId b = userId
       \<and> find (\<lambda>s. salon_id s = salonId) (salons (readData st)) = Some (booking_salon b)
       \<and> find (\<lambda>s. staff_id s = staffId) (staff (readData st)) = Some (booking_staff b)
       \<and> booking_services b = filter (\<lambda>s. service_id s \<in> set serviceIds) (services (readData st))
       \<and> booking_time b = time
       \<and> booking_id b = ''booking-'' @ numberToString now
       \<and> (\<forall>b' \<in> set (storedBookings st). \<forall>t.
             booking_id b' = ''booking-'' @ numberToString t \<and> t \<noteq> now
             \<longrightarrow> booking_id b' \<noteq> booking_id b)"
proof (cases rule: createBooking_cases [of salonId st staffId serviceIds now userId time])
  case fail
  with assms show ?thesis by simp
next
  case (ok sa sf)
  from ok(4) assms have b: "b = \<lparr>booking_id = ''booking-'' @ numberToString now, booking_userId = userId,
           booking_salon = sa,
           booking_services = filter (\<lambda>s. service_id s \<in> set serviceIds) (services (dataFile st)),
           booking_staff = sf, booking_time = time\<rparr>"
    and st': "st' = st\<lparr>dataFile := (dataFile st)\<lparr>bookings := Some (storedBookings st @ [b])\<rparr>\<rparr>"
    by simp_all
  have g: "getBookings userId st' = getBookings userId st @ [b]"
    by (simp add: st' getBookings_def readData_def storedBookings_def b)
  have i: "\<forall>b' \<in> set (storedBookings st). \<forall>t.
             booking_id b' = ''booking-'' @ numberToString t \<and> t \<noteq> now
             \<longrightarrow> booking_id b' \<noteq> booking_id b"
    by (auto simp: b dest: numberToString_inj)
  show ?thesis using g i ok(1,2) by (simp add: b readData_def)
qed

theorem createBooking_round_trip_witness:
  "createBooking 6 ''user-1'' ''salon-1'' [''service-1''] ''staff-1'' ''10:00 AM''
       (exampleServer\<lparr>dataFile := exampleData\<lparr>bookings := Some [exampleBooking 5 ''user-1'']\<rparr>\<rparr>)
     = (Inr (exampleBooking 6 ''user-1''),
        exampleServer\<lparr>dataFile := exampleData\<lparr>bookings :=
           Some [exampleBooking 5 ''user-1'', exampleBooking 6 ''user-1'']\<rparr>\<rparr>)
   \<and> getBookings ''user-1''
        (exampleServer\<lparr>dataFile := exampleData\<lparr>bookings :=
           Some [exampleBooking 5 ''user-1'', exampleBooking 6 ''user-1'']\<rparr>\<rparr>)
     = [exampleBooking 5 ''user-1'', exampleBooking 6 ''user-1'']
   \<and> booking_id (exampleBooking 5 ''user-1'') \<noteq> booking_id (exampleBooking 6 ''user-1'')"
proof -
  have c: "createBooking 6 ''user-1'' ''salon-1'' [''service-1''] ''staff-1'' ''10:00 AM''
       (exampleServer\<lparr>dataFile := exampleData\<lparr>bookings := Some [exampleBooking 5 ''user-1'']\<rparr>\<rparr>)
     = (Inr (exampleBooking 6 ''user-1''),
        exampleServer\<lparr>dataFile := exampleData\<lparr>bookings :=
           Some [exampleBooking 5 ''user-1'', exampleBooking 6 ''user-1'']\<rparr>\<rparr>)"
    by (simp add: createBooking_example)
  have g: "getBookings ''user-1''
       (exampleServer\<lparr>dataFile := exampleData\<lparr>bookings := Some [exampleBooking 5 ''user-1'']\<rparr>\<rparr>)
     = [exampleBooking 5 ''user-1'']"
    by (simp add: getBookings_def readData_def exampleBooking_def)
  have s: "storedBookings
       (exampleServer\<lparr>dataFile := exampleData\<lparr>bookings := Some [exampleBooking 5 ''user-1'']\<rparr>\<rparr>)
     = [exampleBooking 5 ''user-1'']"
    by (simp add: storedBookings_def readData_def)
  have i: "booking_id (exampleBooking 5 ''user-1'') = ''booking-'' @ numberToString 5"
    by (simp add: exampleBooking_def)
  note r = createBooking_round_trip [OF c, unfolded g s]
  from r have 1: "getBookings ''user-1''
        (exampleServer\<lparr>dataFile := exampleData\<lparr>bookings :=
           Some [exampleBooking 5 ''user-1'', exampleBooking 6 ''user-1'']\<rparr>\<rparr>)
     = [exampleBooking 5 ''user-1'', exampleBooking 6 ''user-1'']"
    by simp
  from r have "\<forall>b' \<in> set [exampleBooking 5 ''user-1'']. \<forall>t.
       booking_id b' = ''booking-'' @ numberToString t \<and> t \<noteq> 6
       \<longrightarrow> booking_id b' \<noteq> booking_id (exampleBooking 6 ''user-1'')"
    by blast
  then have "booking_id (exampleBooking 5 ''user-1'') = ''booking-'' @ numberToString 5 \<and> (5::nat) \<noteq> 6
       \<longrightarrow> booking_id (exampleBooking 5 ''user-1'') \<noteq> booking_id (exampleBooking 6 ''user-1'')"
    by simp
  with i have 2: "booking_id (exampleBooking 5 ''user-1'') \<noteq> booking_id (exampleBooking 6 ''user-1'')"
    by simp
  from c 1 2 show ?thesis by blast
qed

text \<open>
  C7, as stated: every booking added by \<^verbatim>\<open>createBooking\<close> has a userId that references a
  stored user; \<^verbatim>\<open>createBooking\<close> never succeeds when \<open>userId\<close> matches no stored user. The
  resolver does not look at the users: a booking for \<^verbatim>\<open>ghost\<close>, who is no stored user, is
  created and persisted.
\<close>

theorem createBooking_unknown_user_counterexample:
  "createBooking 5 ''ghost'' ''salon-1'' [''service-1''] ''staff-1'' ''10:00 AM'' exampleServer
     = (Inr (exampleBooking 5 ''ghost''),
        exampleServer\<lparr>dataFile := exampleData\<lparr>bookings := Some [exampleBooking 5 ''ghost'']\<rparr>\<rparr>)
   \<and> booking_userId (exampleBooking 5 ''ghost'') = ''ghost''
   \<and> ''ghost'' \<notin> stored_id ` set (users (readData exampleServer))"
  using createBooking_example [of 5 "''ghost''" "Some []"]
  by (simp add: exampleServer_file) (simp add: readData_def example_defs exampleBooking_def)

text \<open>
  C7, amended: \<^verbatim>\<open>createBooking\<close> makes no check of \<open>userId\<close> against the stored users. It
  succeeds exactly when the document holds a salon with id \<open>salonId\<close>, a staff with id
  \<open>staffId\<close> and a service whose id is in \<open>serviceIds\<close>, whatever the \<open>userId\<close> and the
  users are; every booking it adds carries the \<open>userId\<close> argument as it was given.
\<close>

theorem createBooking_userId_unchecked:
  "((\<exists>b st'. createBooking now userId salonId serviceIds staffId time st = (Inr b, st')) \<longleftrightarrow>
       (\<exists>s \<in> set (salons (readData st)). salon_id s = salonId)
     \<and> (\<exists>s \<in> set (staff (readData st)). staff_id s = staffId)
     \<and> (\<exists>s \<in> set (services (readData st)). service_id s \<in> set serviceIds))
   \<and> (\<forall>b st'. createBooking now userId salonId serviceIds staffId time st = (Inr b, st')
        \<longrightarrow> booking_userId b = userId
          \<and> storedBookings st' = storedBookings st @ [b]
          \<and> users (readData st') = users (readData st))"
proof (intro conjI allI impI)
  show "(\<exists>b st'. createBooking now userId salonId serviceIds staffId time st = (Inr b, st')) \<longleftrightarrow>
       (\<exists>s \<in> set (salons (readData st)). salon_id s = salonId)
     \<and> (\<exists>s \<in> set (staff (readData st)). staff_id s = staffId)
     \<and> (\<exists>s \<in> set (services (readData st)). service_id s \<in> set serviceIds)"
    by (rule createBooking_Inr_iff)
next
  fix b st'
  assume a: "createBooking now userId salonId serviceIds staffId time st = (Inr b, st')"
  then show "booking_userId b = userId"
    by (cases rule: createBooking_cases [of salonId st staffId serviceIds now userId time]) auto
  from a show "storedBookings st' = storedBookings st @ [b]"
    by (cases rule: createBooking_cases [of salonId st staffId serviceIds now userId time])
       (auto simp: storedBookings_def readData_def)
  from a show "users (readData st') = users (readData st)"
    by (cases rule: createBooking_cases [of salonId st staffId serviceIds now userId time])
       (auto simp: readData_def)
qed

theorem createBooking_userId_unchecked_witness:
  "(\<exists>b st'. createBooking 5 ''ghost'' ''salon-1'' [''service-1''] ''staff-1'' ''10:00 AM''
       (exampleServer\<lparr>dataFile := exampleData\<lparr>users := []\<rparr>\<rparr>) = (Inr b, st'))
   \<and> booking_userId (exampleBooking 5 ''ghost'') = ''ghost''
   \<and> storedBookings (exampleServer\<lparr>dataFile := exampleData\<lparr>bookings := Some [exampleBooking 5 ''ghost'']\<rparr>\<rparr>)
       = storedBookings exampleServer @ [exampleBooking 5 ''ghost'']"
proof -
  let ?st = "exampleServer\<lparr>dataFile := exampleData\<lparr>users := []\<rparr>\<rparr>"
  have "(\<exists>s \<in> set (salons (readData ?st)). salon_id s = ''salon-1'')
     \<and> (\<exists>s \<in> set (staff (readData ?st)). staff_id s = ''staff-1'')
     \<and> (\<exists>s \<in> set (services (readData ?st)). service_id s \<in> set [''service-1''])"
    by (simp add: readData_def example_defs)
  with createBooking_userId_unchecked [of 5 "''ghost''" "''salon-1''" "[''service-1'']" "''staff-1''" "''10:00 AM''" ?st]
  have 1: "\<exists>b st'. createBooking 5 ''ghost'' ''salon-1'' [''service-1''] ''staff-1'' ''10:00 AM'' ?st
      = (Inr b, st')"
    by blast
  have c: "createBooking 5 ''ghost'' ''salon-1'' [''service-1''] ''staff-1'' ''10:00 AM'' exampleServer
     = (Inr (exampleBooking 5 ''ghost''),
        exampleServer\<lparr>dataFile := exampleData\<lparr>bookings := Some [exampleBooking 5 ''ghost'']\<rparr>\<rparr>)"
    using createBooking_example [of 5 "''ghost''" "Some []"] by (simp add: exampleServer_file)
  with createBooking_userId_unchecked [of 5 "''ghost''" "''salon-1''" "[''service-1'']" "''staff-1''" "''10:00 AM''" exampleServer]
  have 2: "booking_userId (exampleBooking 5 ''ghost'') = ''ghost''
     \<and> storedBookings (exampleServer\<lparr>dataFile := exampleData\<lparr>bookings := Some [exampleBooking 5 ''ghost'']\<rparr>\<rparr>)
       = storedBookings exampleServer @ [exampleBooking 5 ''ghost'']"
    by blast
  from 1 2 show ?thesis by blast
qed

text \<open>
  C10. \<^verbatim>\<open>createBooking\<close>, whether it succeeds or fails, leaves the salons, services, staff,
  schedules and users of the persisted document unchanged (and the loaded \<^verbatim>\<open>sampleData\<close>
  with them), so no schedule's \<^verbatim>\<open>isAvailable\<close> flag is set. Whether it fails does not
  depend on the \<open>time\<close> argument, on the clock or on the schedules the document holds. A call
  that succeeds can be repeated any number of times with the same \<open>time\<close>: every one of
  the calls returns a booking for that time, and the document holds that many more
  bookings for it.
\<close>

theorem createBooking_frame:
  "salons (readData (snd (createBooking now userId salonId serviceIds staffId time st))) = salons (readData st)
   \<and> services (readData (snd (createBooking now userId salonId serviceIds staffId time st))) = services (readData st)
   \<and> staff (readData (snd (createBooking now userId salonId serviceIds staffId time st))) = staff (readData st)
   \<and> schedules (readData (snd (createBooking now userId salonId serviceIds staffId time st))) = schedules (readData st)
   \<and> users (readData (snd (createBooking now userId salonId serviceIds staffId time st))) = users (readData st)
   \<and> sampleData (snd (createBooking now userId salonId serviceIds staffId time st)) = sampleData st
   \<and> isl (fst (createBooking now' userId' salonId serviceIds staffId time'
              (st\<lparr>dataFile := (dataFile st)\<lparr>schedules := scheds\<rparr>\<rparr>)))
       = isl (fst (createBooking now userId salonId serviceIds staffId time st))
   \<and> (\<not> isl (fst (createBooking now userId salonId serviceIds staffId time st)) \<longrightarrow>
        map (map_sum (\<lambda>e. e) booking_time)
            (fst (createBookings nows userId salonId serviceIds staffId time st))
          = replicate (length nows) (Inr time)
      \<and> length (filter (\<lambda>b. booking_time b = time)
            (storedBookings (snd (createBookings nows userId salonId serviceIds staffId time st))))
          = length (filter (\<lambda>b. booking_time b = time) (storedBookings st)) + length nows)"
proof -
  have 1: "isl (fst (createBooking now' userId' salonId serviceIds staffId time'
              (st\<lparr>dataFile := (dataFile st)\<lparr>schedules := scheds\<rparr>\<rparr>)))
       = isl (fst (createBooking now userId salonId serviceIds staffId time st))"
    by (simp add: createBooking_isl)
  have 2: "\<not> isl (fst (createBooking now userId salonId serviceIds staffId time st)) \<longrightarrow>
        map (map_sum (\<lambda>e. e) booking_time)
            (fst (createBookings nows userId salonId serviceIds staffId time st))
          = replicate (length nows) (Inr time)
      \<and> length (filter (\<lambda>b. booking_time b = time)
            (storedBookings (snd (createBookings nows userId salonId serviceIds staffId time st))))
          = length (filter (\<lambda>b. booking_time b = time) (storedBookings st)) + length nows"
    unfolding createBooking_isl by (intro impI createBookings_all_succeed) simp_all
  show ?thesis
    using 1 2 by (simp add: readData_def createBooking_keeps)
qed

theorem createBooking_frame_witness:
  "\<not> isl (fst (createBooking 5 ''user-1'' ''salon-1'' [''service-1''] ''staff-1'' ''11:00 AM'' exampleServer))
   \<and> map (map_sum (\<lambda>e. e) booking_time)
       (fst (createBookings [5, 6, 7] ''user-1'' ''salon-1'' [''service-1''] ''staff-1'' ''11:00 AM''
          exampleServer))
     = [Inr ''11:00 AM'', Inr ''11:00 AM'', Inr ''11:00 AM'']
   \<and> length (filter (\<lambda>b. booking_time b = ''11:00 AM'')
        (storedBookings (snd (createBookings [5, 6, 7] ''user-1'' ''salon-1'' [''service-1'']
           ''staff-1'' ''11:00 AM'' exampleServer))))
     = 3"
proof -
  have ok: "\<not> isl (fst (createBooking 5 ''user-1'' ''salon-1'' [''service-1''] ''staff-1'' ''11:00 AM'' exampleServer))"
    by (simp add: createBooking_isl example_defs)
  have e: "storedBookings exampleServer = []"
    by (simp add: storedBookings_def readData_def example_defs)
  from createBooking_frame [of 5 "''user-1''" "''salon-1''" "[''service-1'']" "''staff-1''"
      "''11:00 AM''" exampleServer _ _ _ _ "[5, 6, 7]"] ok e
  show ?thesis by (simp add: numeral_3_eq_3)
qed

section \<open>Registration\<close>

lemma register_existing:
  assumes "\<exists>u \<in> set (users (readData st)). stored_email u = email"
  shows "register now name phone email password st
     = (failure ''Email already registered. Please login instead.'', st)"
proof -
  from assms have "find (\<lambda>u. stored_email u = email) (users (readData st)) \<noteq> None"
    by (auto simp: find_None_iff)
  then show ?thesis by (simp add: register_def Let_def)
qed

lemma register_fresh:
  assumes "\<forall>u \<in> set (users (readData st)). stored_email u \<noteq> email"
  shows "register now name phone email password st =
     (if name = [] \<or> phone = [] \<or> email = [] \<or> password = []
      then (failure ''All fields are required'', st)
      else if length phone < 10
      then (failure ''Phone number must be at least 10 digits'', st)
      else if CHR ''@'' \<notin> set email
      then (failure ''Invalid email address'', st)
      else if length password < 6
      then (failure ''Password must be at least 6 characters'', st)
      else (\<lparr>success = True,
             message = ''Registration successful! Please login to continue.'',
             user = Some \<lparr>user_id = ''user-'' @ numberToString now, user_name = name,
                          user_phone = phone, user_email = email\<rparr>\<rparr>,
            st\<lparr>dataFile := (dataFile st)\<lparr>users := users (dataFile st) @
               [\<lparr>stored_id = ''user-'' @ numberToString now, stored_name = name,
                 stored_phone = phone, stored_email = email, stored_password = password\<rparr>]\<rparr>\<rparr>))"
proof -
  from assms have "find (\<lambda>u. stored_email u = email) (users (readData st)) = None"
    by (auto simp: find_None_iff)
  then show ?thesis by (simp add: register_def Let_def readData_def writeData_def)
qed

text \<open>
  C2. \<^verbatim>\<open>register\<close> evaluates its checks in a fixed order (email already registered, a
  blank field, phone shorter than 10, email without \<^verbatim>\<open>@\<close>, password shorter than 6) and
  returns \<^verbatim>\<open>success: false\<close> with the message of the first check that fails, leaving the
  state as it found it; when none fails it succeeds. In particular
  \<^verbatim>\<open>register("", "123", "bad", "ab")\<close>, with \<^verbatim>\<open>bad\<close> not registered, fails with the
  all-fields-required message: the phone, email and password checks are not reached.
\<close>

theorem register_validation_order:
  "((\<exists>u \<in> set (users (readData st)). stored_email u = email) \<longrightarrow>
      register now name phone email password st
        = (failure ''Email already registered. Please login instead.'', st))
   \<and> (\<not> (\<exists>u \<in> set (users (readData st)). stored_email u = email)
      \<and> (name = [] \<or> phone = [] \<or> email = [] \<or> password = []) \<longrightarrow>
      register now name phone email password st = (failure ''All fields are required'', st))
   \<and> (\<not> (\<exists>u \<in> set (users (readData st)). stored_email u = email)
      \<and> name \<noteq> [] \<and> phone \<noteq> [] \<and> email \<noteq> [] \<and> password \<noteq> []
      \<and> length phone < 10 \<longrightarrow>
      register now name phone email password st
        = (failure ''Phone number must be at least 10 digits'', st))
   \<and> (\<not> (\<exists>u \<in> set (users (readData st)). stored_email u = email)
      \<and> name \<noteq> [] \<and> phone \<noteq> [] \<and> email \<noteq> [] \<and> password \<noteq> []
      \<and> 10 \<le> length phone \<and> CHR ''@'' \<notin> set email \<longrightarrow>
      register now name phone email password st = (failure ''Invalid email address'', st))
   \<and> (\<not> (\<exists>u \<in> set (users (readData st)). stored_email u = email)
      \<and> name \<noteq> [] \<and> phone \<noteq> [] \<and> email \<noteq> [] \<and> password \<noteq> []
      \<and> 10 \<le> length phone \<and> CHR ''@'' \<in> set email \<and> length password < 6 \<longrightarrow>
      register now name phone email password st
        = (failure ''Password must be at least 6 characters'', st))
   \<and> (\<not> (\<exists>u \<in> set (users (readData st)). stored_email u = email)
      \<and> name \<noteq> [] \<and> phone \<noteq> [] \<and> email \<noteq> [] \<and> password \<noteq> []
      \<and> 10 \<le> length phone \<and> CHR ''@'' \<in> set email \<and> 6 \<le> length password \<longrightarrow>
      success (fst (register now name phone email password st)))
   \<and> (\<not> (\<exists>u \<in> set (users (readData st)). stored_email u = ''bad'') \<longrightarrow>
      register now '''' ''123'' ''bad'' ''ab'' st = (failure ''All fields are required'', st))"
proof (cases "\<exists>u \<in> set (users (readData st)). stored_email u = email")
  case True
  have "\<not> (\<exists>u \<in> set (users (readData st)). stored_email u = ''bad'') \<longrightarrow>
      register now '''' ''123'' ''bad'' ''ab'' st = (failure ''All fields are required'', st)"
    by (simp add: register_fresh)
  with True show ?thesis by (simp add: register_existing)
next
  case False
  have "\<not> (\<exists>u \<in> set (users (readData st)). stored_email u = ''bad'') \<longrightarrow>
      register now '''' ''123'' ''bad'' ''ab'' st = (failure ''All fields are required'', st)"
    by (simp add: register_fresh)
  moreover from False have "\<forall>u \<in> set (users (readData st)). stored_email u \<noteq> email" by simp
  note register_fresh [OF this, of now name phone password]
  ultimately show ?thesis using False by auto
qed

theorem register_validation_order_witness:
  "register 5 '''' ''123'' ''demo@salon.com'' ''ab'' exampleServer
     = (failure ''Email already registered. Please login instead.'', exampleServer)
   \<and> register 5 '''' ''123'' ''bad'' ''ab'' exampleServer
     = (failure ''All fields are required'', exampleServer)
   \<and> register 5 ''Ann'' ''123'' ''bad'' ''ab'' exampleServer
     = (failure ''Phone number must be at least 10 digits'', exampleServer)
   \<and> register 5 ''Ann'' ''0123456789'' ''bad'' ''ab'' exampleServer
     = (failure ''Invalid email address'', exampleServer)
   \<and> register 5 ''Ann'' ''0123456789'' ''a@b'' ''ab'' exampleServer
     = (failure ''Password must be at least 6 characters'', exampleServer)
   \<and> success (fst (register 5 ''Ann'' ''0123456789'' ''a@b'' ''secret'' exampleServer))"
proof -
  have u: "users (readData exampleServer) = [exampleUser]"
    by (simp add: readData_def exampleServer_def exampleData_def)
  have e: "stored_email exampleUser = ''demo@salon.com''"
    by (simp add: exampleUser_def)
  have 1: "register 5 '''' ''123'' ''demo@salon.com'' ''ab'' exampleServer
     = (failure ''Email already registered. Please login instead.'', exampleServer)"
    using register_validation_order [of exampleServer "''demo@salon.com''" 5 "''''" "''123''" "''ab''"]
    by (simp add: u e)
  have 2: "register 5 '''' ''123'' ''bad'' ''ab'' exampleServer
     = (failure ''All fields are required'', exampleServer)"
    using register_validation_order [of exampleServer "''bad''" 5 "''''" "''123''" "''ab''"]
    by (simp add: u e)
  have 3: "register 5 ''Ann'' ''123'' ''bad'' ''ab'' exampleServer
     = (failure ''Phone number must be at least 10 digits'', exampleServer)"
    using register_validation_order [of exampleServer "''bad''" 5 "''Ann''" "''123''" "''ab''"]
    by (simp add: u e)
  have 4: "register 5 ''Ann'' ''0123456789'' ''bad'' ''ab'' exampleServer
     = (failure ''Invalid email address'', exampleServer)"
    using register_validation_order [of exampleServer "''bad''" 5 "''Ann''" "''0123456789''" "''ab''"]
    by (simp add: u e)
  have 5: "register 5 ''Ann'' ''0123456789'' ''a@b'' ''ab'' exampleServer
     = (failure ''Password must be at least 6 characters'', exampleServer)"
    using register_validation_order [of exampleServer "''a@b''" 5 "''Ann''" "''0123456789''" "''ab''"]
    by (simp add: u e)
  have 6: "success (fst (register 5 ''Ann'' ''0123456789'' ''a@b'' ''secret'' exampleServer))"
    using register_validation_order [of exampleServer "''a@b''" 5 "''Ann''" "''0123456789''" "''secret''"]
    by (simp add: u e)
  from 1 2 3 4 5 6 show ?thesis by blast
qed

subsection \<open>What a history of calls keeps\<close>

lemma register_keeps:
  "\<exists>us. users (dataFile (snd (register now name phone email password st))) = users (dataFile st) @ us"
  "schedules (dataFile (snd (register now name phone email password st))) = schedules (dataFile st)"
  "sampleData (snd (register now name phone email password st)) = sampleData st"
  by (simp_all add: register_def Let_def readData_def writeData_def)

lemma login_keeps: "snd (login email password st) = st"
  by (simp add: login_def Let_def split: option.split)

lemma serve_keeps:
  "\<exists>us. users (dataFile (serve r st)) = users (dataFile st) @ us"
  "schedules (dataFile (serve r st)) = schedules (dataFile st)"
  "sampleData (serve r st) = sampleData st"
  by (cases r; simp add: createBooking_keeps register_keeps login_keeps)+

lemma run_users: "\<exists>us. users (dataFile (run rs st)) = users (dataFile st) @ us"
proof (induction rs arbitrary: st)
  case Nil
  show ?case by simp
next
  case (Cons r rs)
  from serve_keeps(1) [of r st] obtain us where
    "users (dataFile (serve r st)) = users (dataFile st) @ us" ..
  moreover from Cons.IH [of "serve r st"] obtain vs where
    "users (dataFile (run rs (serve r st))) = users (dataFile (serve r st)) @ vs" ..
  ultimately show ?case by simp
qed

lemma run_schedules: "schedules (dataFile (run rs st)) = schedules (dataFile st)"
  by (induction rs arbitrary: st) (simp_all add: serve_keeps)

lemma run_sampleData: "sampleData (run rs st) = sampleData st"
  by (induction rs arbitrary: st) (simp_all add: serve_keeps)

lemma register_success_stores:
  assumes "success (fst (register now name phone email password st))"
  shows "\<exists>u \<in> set (users (dataFile (snd (register now name phone email password st)))).
           stored_email u = email"
proof (cases "\<exists>u \<in> set (users (readData st)). stored_email u = email")
  case True
  with assms show ?thesis by (simp add: register_existing)
next
  case False
  then have "\<forall>u \<in> set (users (readData st)). stored_email u \<noteq> email" by simp
  from register_fresh [OF this, of now name phone password] assms show ?thesis
    by (simp split: if_splits)
qed

text \<open>
  C4. When a \<^verbatim>\<open>register\<close> call succeeds, every later \<^verbatim>\<open>register\<close> call with the same
  email, directly after it or after any further mutations, fails with the
  already-registered message and leaves the state as it found it: the users of the
  persisted document are exactly what they were before the second call.
\<close>

theorem register_same_email_twice:
  assumes "register now1 name1 phone1 email password1 st = (r1, st1)"
    and "success r1"
  shows "register now2 name2 phone2 email password2 (run reqs st1)
           = (failure ''Email already registered. Please login instead.'', run reqs st1)
       \<and> \<not> success (fst (register now2 name2 phone2 email password2 (run reqs st1)))
       \<and> users (readData (snd (register now2 name2 phone2 email password2 (run reqs st1))))
           = users (readData (run reqs st1))"
proof -
  from assms register_success_stores [of now1 name1 phone1 email password1 st]
  obtain u where u: "u \<in> set (users (dataFile st1))" "stored_email u = email" by auto
  from run_users [of reqs st1] obtain us where
    "users (dataFile (run reqs st1)) = users (dataFile st1) @ us" ..
  with u have "\<exists>u \<in> set (users (readData (run reqs st1))). stored_email u = email"
    by (auto simp: readData_def)
  from register_existing [OF this] show ?thesis by simp
qed

theorem register_same_email_twice_witness:
  "success (fst (register 5 ''Ann'' ''0123456789'' ''a@b'' ''secret'' exampleServer))
   \<and> register 6 ''Bob'' ''9876543210'' ''a@b'' ''hunter22''
       (run [Login ''a@b'' ''secret'',
             CreateBooking 7 ''user-5'' ''salon-1'' [''service-1''] ''staff-1'' ''10:00 AM'']
          (snd (register 5 ''Ann'' ''0123456789'' ''a@b'' ''secret'' exampleServer)))
     = (failure ''Email already registered. Please login instead.'',
        run [Login ''a@b'' ''secret'',
             CreateBooking 7 ''user-5'' ''salon-1'' [''service-1''] ''staff-1'' ''10:00 AM'']
          (snd (register 5 ''Ann'' ''0123456789'' ''a@b'' ''secret'' exampleServer)))"
proof -
  have s: "success (fst (register 5 ''Ann'' ''0123456789'' ''a@b'' ''secret'' exampleServer))"
    by (simp add: register_fresh readData_def example_defs)
  from register_same_email_twice [OF prod.collapse [symmetric] s] s show ?thesis by blast
qed

section \<open>Login\<close>

lemma login_None:
  assumes "\<forall>u \<in> set (users (readData st)). \<not> (stored_email u = email \<and> stored_password u = password)"
  shows "login email password st = (failure ''Invalid email or password'', st)"
proof -
  from assms
  have "find (\<lambda>u. stored_email u = email \<and> stored_password u = password) (users (readData st)) = None"
    by (auto simp: find_None_iff)
  then show ?thesis by (simp add: login_def Let_def)
qed

lemma login_Some:
  assumes "\<exists>u \<in> set (users (readData st)). stored_email u = email \<and> stored_password u = password"
  shows "\<exists>u \<in> set (users (readData st)). stored_email u = email \<and> stored_password u = password
     \<and> login email password st =
         (\<lparr>success = True, message = ''Login successful!'',
           user = Some \<lparr>user_id = stored_id u, user_name = stored_name u,
                        user_phone = stored_phone u, user_email = stored_email u\<rparr>\<rparr>, st)"
proof -
  from assms
  have "find (\<lambda>u. stored_email u = email \<and> stored_password u = password) (users (readData st)) \<noteq> None"
    by (auto simp: find_None_iff)
  then obtain u where
    f: "find (\<lambda>u. stored_email u = email \<and> stored_password u = password) (users (readData st)) = Some u"
    by auto
  then have "u \<in> set (users (readData st))" "stored_email u = email" "stored_password u = password"
    by (auto simp: find_Some_iff)
  moreover from f have "login email password st =
         (\<lparr>success = True, message = ''Login successful!'',
           user = Some \<lparr>user_id = stored_id u, user_name = stored_name u,
                        user_phone = stored_phone u, user_email = stored_email u\<rparr>\<rparr>, st)"
    by (simp add: login_def Let_def)
  ultimately show ?thesis by blast
qed

text \<open>
  C5. \<^verbatim>\<open>login(email, password)\<close> returns \<^verbatim>\<open>success: true\<close> if and only if some stored user
  has exactly that email and exactly that password, both compared as plain strings. On
  success the returned user carries the id, name, phone and email of a stored user with
  that email and password (the \<open>User\<close> record has no password field); on failure the call
  returns \<^verbatim>\<open>success: false\<close> with the message \<^verbatim>\<open>Invalid email or password\<close> and no user.
  The state is left as it was in both cases.
\<close>

theorem login_correct:
  "(success (fst (login email password st)) \<longleftrightarrow>
      (\<exists>u \<in> set (users (readData st)). stored_email u = email \<and> stored_password u = password))
   \<and> (success (fst (login email password st)) \<longrightarrow>
        (\<exists>u \<in> set (users (readData st)). stored_email u = email \<and> stored_password u = password
           \<and> fst (login email password st) =
               \<lparr>success = True, message = ''Login successful!'',
                user = Some \<lparr>user_id = stored_id u, user_name = stored_name u,
                             user_phone = stored_phone u, user_email = stored_email u\<rparr>\<rparr>))
   \<and> (\<not> success (fst (login email password st)) \<longrightarrow>
        fst (login email password st) = failure ''Invalid email or password'')
   \<and> snd (login email password st) = st"
proof (cases "\<exists>u \<in> set (users (readData st)). stored_email u = email \<and> stored_password u = password")
  case True
  from login_Some [OF True] obtain u where
    "u \<in> set (users (readData st))" "stored_email u = email" "stored_password u = password"
    "login email password st =
         (\<lparr>success = True, message = ''Login successful!'',
           user = Some \<lparr>user_id = stored_id u, user_name = stored_name u,
                        user_phone = stored_phone u, user_email = stored_email u\<rparr>\<rparr>, st)"
    by blast
  then show ?thesis by auto
next
  case False
  then have "\<forall>u \<in> set (users (readData st)). \<not> (stored_email u = email \<and> stored_password u = password)"
    by simp
  from login_None [OF this] False show ?thesis by simp
qed

theorem login_correct_witness:
  "fst (login ''demo@salon.com'' ''demo123'' exampleServer)
     = \<lparr>success = True, message = ''Login successful!'',
        user = Some \<lparr>user_id = ''user-1'', user_name = ''Demo User'',
                     user_phone = ''1234567890'', user_email = ''demo@salon.com''\<rparr>\<rparr>
   \<and> fst (login ''demo@salon.com'' ''wrong'' exampleServer) = failure ''Invalid email or password''
   \<and> fst (login ''demo@salon.com'' ''Demo123'' exampleServer) = failure ''Invalid email or password''
   \<and> fst (login ''Demo@salon.com'' ''demo123'' exampleServer) = failure ''Invalid email or password''"
proof -
  have u: "users (readData exampleServer) = [exampleUser]"
    by (simp add: readData_def exampleServer_def exampleData_def)
  have 1: "fst (login ''demo@salon.com'' ''demo123'' exampleServer)
     = \<lparr>success = True, message = ''Login successful!'',
        user = Some \<lparr>user_id = ''user-1'', user_name = ''Demo User'',
                     user_phone = ''1234567890'', user_email = ''demo@salon.com''\<rparr>\<rparr>"
    using login_correct [of "''demo@salon.com''" "''demo123''" exampleServer]
    by (simp add: u exampleUser_def)
  have 2: "fst (login ''demo@salon.com'' ''wrong'' exampleServer) = failure ''Invalid email or password''"
    using login_correct [of "''demo@salon.com''" "''wrong''" exampleServer]
    by (simp add: u exampleUser_def)
  have 3: "fst (login ''demo@salon.com'' ''Demo123'' exampleServer) = failure ''Invalid email or password''"
    using login_correct [of "''demo@salon.com''" "''Demo123''" exampleServer]
    by (simp add: u exampleUser_def)
  have 4: "fst (login ''Demo@salon.com'' ''demo123'' exampleServer) = failure ''Invalid email or password''"
    using login_correct [of "''Demo@salon.com''" "''demo123''" exampleServer]
    by (simp add: u exampleUser_def)
  from 1 2 3 4 show ?thesis by blast
qed

section \<open>Schedules\<close>

text \<open>
  C6. The server starts with the schedules of the loaded \<^verbatim>\<open>sampleData\<close> being those of the
  file it was loaded from. Then, after any history of mutations and for every \<open>staffId\<close>,
  also one that matches no staff, \<^verbatim>\<open>getStaffSchedules(staffId)\<close> returns the whole schedule
  collection of the persisted document, unfiltered and in stored order; the \<open>staffId\<close>
  argument has no effect on the result.
\<close>

theorem getStaffSchedules_unfiltered:
  assumes "schedules (sampleData st0) = schedules (readData st0)"
  shows "getStaffSchedules staffId (run reqs st0) = schedules (readData (run reqs st0))
       \<and> getStaffSchedules staffId' (run reqs st0) = getStaffSchedules staffId (run reqs st0)"
  using assms
  by (simp add: getStaffSchedules_def readData_def run_schedules run_sampleData)

theorem getStaffSchedules_unfiltered_witness:
  "getStaffSchedules ''staff-1''
      (run [Register 5 ''Ann'' ''0123456789'' ''a@b'' ''secret'',
            CreateBooking 7 ''user-5'' ''salon-1'' [''service-1''] ''staff-1'' ''10:00 AM'']
         exampleServer)
     = schedules exampleData
   \<and> getStaffSchedules ''nobody''
      (run [Register 5 ''Ann'' ''0123456789'' ''a@b'' ''secret'',
            CreateBooking 7 ''user-5'' ''salon-1'' [''service-1''] ''staff-1'' ''10:00 AM'']
         exampleServer)
     = schedules exampleData
   \<and> length (schedules exampleData) = 2"
proof -
  have a: "schedules (sampleData exampleServer) = schedules (readData exampleServer)"
    by (simp add: readData_def exampleServer_def)
  have d: "schedules (readData (run reqs exampleServer)) = schedules exampleData" for reqs
    by (simp add: readData_def run_schedules exampleServer_def)
  have l: "length (schedules exampleData) = 2"
    by (simp add: exampleData_def)
  let ?reqs = "[Register 5 ''Ann'' ''0123456789'' ''a@b'' ''secret'',
            CreateBooking 7 ''user-5'' ''salon-1'' [''service-1''] ''staff-1'' ''10:00 AM'']"
  from getStaffSchedules_unfiltered [OF a, of "''staff-1''" ?reqs "''nobody''"] d [of ?reqs] l
  show ?thesis by (simp del: run.simps)
qed

section \<open>Service selection\<close>

lemma toggleService_absent:
  assumes "\<forall>s \<in> set selectedServices. service_id s \<noteq> service_id service"
  shows "toggleService service (toggleService service selectedServices) = selectedServices"
proof -
  from assms have n: "find (\<lambda>s. service_id s = service_id service) selectedServices = None"
    by (simp add: find_None_iff)
  from assms have f: "filter (\<lambda>s. service_id s \<noteq> service_id service) selectedServices = selectedServices"
    by (simp add: filter_id_conv)
  have "find (\<lambda>s. service_id s = service_id service) (selectedServices @ [service]) \<noteq> None"
    by (auto simp: find_None_iff)
  with n f show ?thesis by (simp add: toggleService_def)
qed

lemma toggleService_present:
  assumes "\<exists>s \<in> set selectedServices. service_id s = service_id service"
  shows "toggleService service (toggleService service selectedServices)
       = filter (\<lambda>s. service_id s \<noteq> service_id service) selectedServices @ [service]"
proof -
  from assms have n: "find (\<lambda>s. service_id s = service_id service) selectedServices \<noteq> None"
    by (auto simp: find_None_iff)
  have "find (\<lambda>s. service_id s = service_id service)
          (filter (\<lambda>s. service_id s \<noteq> service_id service) selectedServices) = None"
    by (auto simp: find_None_iff)
  with n show ?thesis by (simp add: toggleService_def)
qed

text \<open>
  C9. For every selection and every service, \<^verbatim>\<open>toggleService\<close> applied twice with that
  service gives a selection with the membership of the original one: a service id is the
  id of a selected service after the two toggles if and only if it was before.
\<close>

theorem toggleService_twice:
  "service_id ` set (toggleService service (toggleService service selectedServices))
     = service_id ` set selectedServices"
proof (cases "\<exists>s \<in> set selectedServices. service_id s = service_id service")
  case True
  then obtain s where s: "s \<in> set selectedServices" "service_id s = service_id service"
    by blast
  have "service_id ` set (filter (\<lambda>s. service_id s \<noteq> service_id service) selectedServices @ [service])
      = service_id ` set selectedServices"
  proof (intro equalityI subsetI)
    fix i
    assume "i \<in> service_id ` set (filter (\<lambda>s. service_id s \<noteq> service_id service) selectedServices @ [service])"
    then consider "i = service_id service"
      | x where "x \<in> set selectedServices" "i = service_id x"
      by auto
    then show "i \<in> service_id ` set selectedServices"
    proof cases
      case 1
      with s show ?thesis by (metis imageI)
    next
      case 2
      then show ?thesis by (metis imageI)
    qed
  next
    fix i
    assume "i \<in> service_id ` set selectedServices"
    then obtain x where x: "x \<in> set selectedServices" "i = service_id x"
      by blast
    show "i \<in> service_id ` set (filter (\<lambda>s. service_id s \<noteq> service_id service) selectedServices @ [service])"
    proof (cases "i = service_id service")
      case True
      then show ?thesis by simp
    next
      case False
      with x have "x \<in> set (filter (\<lambda>s. service_id s \<noteq> service_id service) selectedServices)"
        by simp
      with x(2) show ?thesis by (metis imageI set_append UnI1)
    qed
  qed
  with True show ?thesis by (simp only: toggleService_present)
next
  case False
  then have "\<forall>s \<in> set selectedServices. service_id s \<noteq> service_id service" by blast
  then show ?thesis by (simp only: toggleService_absent)
qed

theorem toggleService_twice_witness:
  "service_id ` set (toggleService exampleService (toggleService exampleService [exampleService]))
     = {''service-1''}
   \<and> service_id ` set (toggleService exampleService (toggleService exampleService []))
     = {}"
  using toggleService_twice [of exampleService "[exampleService]"]
    toggleService_twice [of exampleService "[]"]
  by (simp add: exampleService_def)

end
